theory Spec2Isabelle
  imports Main
begin

section \<open>Errors\<close>

text \<open>
  Go's \<^verbatim>\<open>error\<close> values, as far as \<^verbatim>\<open>iterator.go\<close> looks at them. The package
  declares one sentinel, \<^verbatim>\<open>var ErrStop = errors.New("iterator stopped")\<close>; it is a value of
  its own, different from every other error, also from one created later with the same
  text. Any other error of a caller is either a fresh one (\<^verbatim>\<open>errors.New\<close>, or
  \<^verbatim>\<open>fmt.Errorf\<close> without \<^verbatim>\<open>%w\<close>) or one that wraps another error
  (\<^verbatim>\<open>fmt.Errorf("...: %w", err)\<close>). A \<^verbatim>\<open>nil\<close> error is \<open>None\<close> of \<open>error option\<close>.
\<close>

datatype error = ErrStop | errors_New string | fmt_Errorf string error

text \<open>
  \<^verbatim>\<open>errors.Is(err, target)\<close>: \<^verbatim>\<open>err\<close> itself or an error on its chain of wrapped errors
  is \<^verbatim>\<open>target\<close>.
\<close>

fun errors_Is :: "error \<Rightarrow> error \<Rightarrow> bool" where
  "errors_Is ErrStop target = (ErrStop = target)"
| "errors_Is (errors_New text) target = (errors_New text = target)"
| "errors_Is (fmt_Errorf text err) target =
     (fmt_Errorf text err = target \<or> errors_Is err target)"

section \<open>The caller's functions and what they act on\<close>

text \<open>
  The three functions of a \<^verbatim>\<open>Config\<close> and the callback of \<^verbatim>\<open>Iterate\<close> are closures of
  the caller: they may do I/O and change what they captured (the tests post to an HTTP
  server and count calls). Everything they can read or change is the world \<open>'w\<close>, which
  each of them takes and returns. Beside the world the environment keeps \<open>calls\<close>, the
  calls the cursor has made to these functions so far, each with the arguments the source
  passes: \<^verbatim>\<open>d.fetchNext(d.request)\<close>, \<^verbatim>\<open>d.hasNext(d.response)\<close>,
  \<^verbatim>\<open>d.getFirstRequest()\<close>, \<^verbatim>\<open>callback(response)\<close>. The closures do not see \<open>calls\<close>.

  A function value is a HOL function here: a \<^verbatim>\<open>nil\<close> function field, whose call panics in
  Go, is not a value of the model.
\<close>

datatype ('i, 'r) call =
  Call_fetchNext 'i | Call_hasNext 'r | Call_getFirstRequest | Call_callback 'r

record ('i, 'r, 'w) env =
  world :: 'w
  calls :: "('i, 'r) call list"

section \<open>The cursor\<close>

text \<open>
  \<^verbatim>\<open>type Config[Request, Response any] struct\<close> and
  \<^verbatim>\<open>type Cursor[Request, Response any] struct\<close>. The field \<^verbatim>\<open>next\<close> is \<open>next_flag\<close>
  here (\<open>next\<close> is a keyword of Isabelle).
\<close>

record ('i, 'r, 'w) Config =
  HasNext :: "'r \<Rightarrow> 'w \<Rightarrow> ('i \<times> bool) \<times> 'w"
  FetchNext :: "'i \<Rightarrow> 'w \<Rightarrow> ('r \<times> error option) \<times> 'w"
  GetFirstRequest :: "'w \<Rightarrow> 'i \<times> 'w"

record ('i, 'r, 'w) Cursor =
  response :: 'r
  request :: 'i
  next_flag :: bool
  hasNext :: "'r \<Rightarrow> 'w \<Rightarrow> ('i \<times> bool) \<times> 'w"
  fetchNext :: "'i \<Rightarrow> 'w \<Rightarrow> ('r \<times> error option) \<times> 'w"
  getFirstRequest :: "'w \<Rightarrow> 'i \<times> 'w"

text \<open>
  \<^verbatim>\<open>New\<close> names four fields in its composite literal; Go sets \<^verbatim>\<open>response\<close> and
  \<^verbatim>\<open>request\<close> to the zero values of the type arguments. The two type arguments are
  given here by their zero values.
\<close>

definition New :: "'i \<Rightarrow> 'r \<Rightarrow> ('i, 'r, 'w) Config \<Rightarrow> ('i, 'r, 'w) Cursor" where
  "New zero_request zero_response config =
     \<lparr>response = zero_response, request = zero_request, next_flag = True,
      hasNext = HasNext config, fetchNext = FetchNext config,
      getFirstRequest = GetFirstRequest config\<rparr>"

definition Next :: "('i, 'r, 'w) Cursor \<Rightarrow> bool" where
  "Next d = next_flag d"

text \<open>
  \<^verbatim>\<open>Get\<close> changes the cursor behind its pointer receiver: the model returns the pair the
  source returns, the cursor after the call and the environment after the call. The
  assignment \<^verbatim>\<open>d.response, err = d.fetchNext(d.request)\<close> stores the first result before
  \<^verbatim>\<open>err\<close> is looked at.
\<close>

definition Get ::
  "('i, 'r, 'w) Cursor \<Rightarrow> ('i, 'r, 'w) env \<Rightarrow>
     ('r \<times> error option) \<times> ('i, 'r, 'w) Cursor \<times> ('i, 'r, 'w) env" where
  "Get d s =
     (if \<not> next_flag d then ((response d, Some ErrStop), d, s)
      else
        (case fetchNext d (request d) (world s) of
           ((r, err), w1) \<Rightarrow>
             (let d1 = d\<lparr>response := r\<rparr>;
                  s1 = \<lparr>world = w1, calls = calls s @ [Call_fetchNext (request d)]\<rparr>
              in (case err of
                    Some e \<Rightarrow> ((response d1, Some e), d1, s1)
                  | None \<Rightarrow>
                      (case hasNext d1 (response d1) (world s1) of
                         ((i, m), w2) \<Rightarrow>
                           (let d2 = d1\<lparr>request := i, next_flag := m\<rparr>;
                                s2 = \<lparr>world = w2,
                                      calls = calls s1 @ [Call_hasNext (response d1)]\<rparr>
                            in ((response d2, None), d2, s2)))))))"

definition Reset ::
  "('i, 'r, 'w) Cursor \<Rightarrow> ('i, 'r, 'w) env \<Rightarrow> ('i, 'r, 'w) Cursor \<times> ('i, 'r, 'w) env" where
  "Reset d s =
     (case getFirstRequest d (world s) of
        (i, w1) \<Rightarrow>
          (d\<lparr>request := i, next_flag := True\<rparr>,
           \<lparr>world = w1, calls = calls s @ [Call_getFirstRequest]\<rparr>))"

text \<open>
  \<^verbatim>\<open>Iterate\<close> is a \<^verbatim>\<open>for d.Next() { ... }\<close> loop with four returns inside. It runs for
  ever when every page says there is a next one and the callback never returns an error,
  so it is a partial function: \<open>None\<close> is the run that does not return, \<open>Some\<close> carries
  the returned error (\<open>None\<close> for \<^verbatim>\<open>nil\<close>), the cursor and the environment.
\<close>

partial_function (option) Iterate ::
  "('i, 'r, 'w) Cursor \<Rightarrow> ('r \<Rightarrow> 'w \<Rightarrow> error option \<times> 'w) \<Rightarrow> ('i, 'r, 'w) env \<Rightarrow>
     (error option \<times> ('i, 'r, 'w) Cursor \<times> ('i, 'r, 'w) env) option" where
  "Iterate d callback s =
     (if Next d then
        (case Get d s of
           ((resp, Some err), d1, s1) \<Rightarrow>
             (if errors_Is err ErrStop then Some (None, d1, s1) else Some (Some err, d1, s1))
         | ((resp, None), d1, s1) \<Rightarrow>
             (case callback resp (world s1) of
                (cerr, w2) \<Rightarrow>
                  (let s2 = \<lparr>world = w2, calls = calls s1 @ [Call_callback resp]\<rparr>
                   in (case cerr of
                         Some err \<Rightarrow>
                           (if errors_Is err ErrStop then Some (None, d1, s2)
                            else Some (Some err, d1, s2))
                       | None \<Rightarrow> Iterate d1 callback s2))))
      else Some (None, d, s))"

section \<open>The iterator of the tests\<close>

text \<open>
  \<^verbatim>\<open>iterator_test.go\<close>: \<^verbatim>\<open>MockAPIHandler(recordsCount)\<close> holds the records with the IDs
  \<open>1\<close> to \<open>recordsCount\<close> and answers a request \<^verbatim>\<open>{lastSeen, limit}\<close> with the records
  after \<^verbatim>\<open>lastSeen\<close>, stopping as soon as it has \<^verbatim>\<open>limit\<close> of them. A record is its ID.
\<close>

fun filterRecords :: "int \<Rightarrow> nat \<Rightarrow> int list \<Rightarrow> int list \<Rightarrow> int list" where
  "filterRecords lastSeen limit [] filteredRecords = filteredRecords"
| "filterRecords lastSeen limit (record # records) filteredRecords =
     (if record > lastSeen then
        (if length (filteredRecords @ [record]) = limit then filteredRecords @ [record]
         else filterRecords lastSeen limit records (filteredRecords @ [record]))
      else filterRecords lastSeen limit records filteredRecords)"

definition MockAPIHandler :: "int \<Rightarrow> int \<Rightarrow> nat \<Rightarrow> int list" where
  "MockAPIHandler recordsCount lastSeen limit =
     filterRecords lastSeen limit [1..recordsCount] []"

text \<open>
  \<^verbatim>\<open>simpleIterator(mockServer)\<close>, with the server answering every request: the fetch posts
  \<^verbatim>\<open>{request, 2}\<close> and returns the decoded records with no error; a page that is not
  empty has a next one, asked for with the ID of its last record. The cursor is
  \<^verbatim>\<open>iter.New[int, []Record]\<close> of these functions: the zero values are \<open>0\<close> and the nil
  slice.
\<close>

definition simpleIterator :: "int \<Rightarrow> (int, int list, 'w) Cursor" where
  "simpleIterator recordsCount =
     New 0 []
       \<lparr>HasNext = (\<lambda>resp w. (if length resp > 0 then (last resp, True) else (0, False), w)),
        FetchNext = (\<lambda>req w. ((MockAPIHandler recordsCount req 2, None), w)),
        GetFirstRequest = (\<lambda>w. (0, w))\<rparr>"

text \<open>
  The same iterator against a server that answers its first request and fails from then
  on with status 500, as \<^verbatim>\<open>brokenServerHandler\<close> does: \<^verbatim>\<open>FetchNext\<close> then takes its
  branch \<^verbatim>\<open>return nil, fmt.Errorf("unexpected status code: %d", resp.StatusCode)\<close>. The
  world is the number of requests the server has seen.
\<close>

definition flakyIterator :: "int \<Rightarrow> (int, int list, nat) Cursor" where
  "flakyIterator recordsCount =
     New 0 []
       \<lparr>HasNext = (\<lambda>resp w. (if length resp > 0 then (last resp, True) else (0, False), w)),
        FetchNext = (\<lambda>req seen.
           if seen = 0 then ((MockAPIHandler recordsCount req 2, None), Suc seen)
           else (([], Some (errors_New ''unexpected status code: 500'')), Suc seen)),
        GetFirstRequest = (\<lambda>w. (0, w))\<rparr>"

text \<open>
  A caller that pages the same server and takes a page shorter than the limit for the last
  one, which saves the request for the empty page.
\<close>

definition shortPageIterator :: "int \<Rightarrow> (int, int list, 'w) Cursor" where
  "shortPageIterator recordsCount =
     New 0 []
       \<lparr>HasNext = (\<lambda>resp w. (if length resp = 2 then (last resp, True) else (0, False), w)),
        FetchNext = (\<lambda>req w. ((MockAPIHandler recordsCount req 2, None), w)),
        GetFirstRequest = (\<lambda>w. (0, w))\<rparr>"

text \<open>
  \<^verbatim>\<open>brokenIterator()\<close> of the later tests, whose fetch returns nil records and an error
  every time. The test has \<^verbatim>\<open>errors.New("nope")\<close>; the error is a parameter here.
\<close>

definition brokenIterator :: "error \<Rightarrow> (int, int list, 'w) Cursor" where
  "brokenIterator err =
     New 0 []
       \<lparr>HasNext = (\<lambda>resp w. ((0, True), w)),
        FetchNext = (\<lambda>req w. (([], Some err), w)),
        GetFirstRequest = (\<lambda>w. (1, w))\<rparr>"

text \<open>
  A callback in the manner of \<^verbatim>\<open>TestCursorIterator_CallbackIteration\<close>: it returns the
  error listed for this call and counts the call in \<^verbatim>\<open>i\<close>, which is the world here. On a
  call beyond the list it returns nil.
\<close>

definition test_callback :: "error option list \<Rightarrow> 'r \<Rightarrow> nat \<Rightarrow> error option \<times> nat" where
  "test_callback returnError resp i =
     ((if i < length returnError then returnError ! i else None), Suc i)"

text \<open>The environment before the cursor has made any call.\<close>

definition start :: "'w \<Rightarrow> ('i, 'r, 'w) env" where
  "start w = \<lparr>world = w, calls = []\<rparr>"

section \<open>Runs of several calls\<close>

text \<open>\<open>n\<close> calls of \<^verbatim>\<open>Get\<close> one after the other, with the pairs they return.\<close>

fun repeat_Get ::
  "nat \<Rightarrow> ('i, 'r, 'w) Cursor \<Rightarrow> ('i, 'r, 'w) env \<Rightarrow>
     ('r \<times> error option) list \<times> ('i, 'r, 'w) Cursor \<times> ('i, 'r, 'w) env" where
  "repeat_Get 0 d s = ([], d, s)"
| "repeat_Get (Suc n) d s =
     (case Get d s of
        (res, d1, s1) \<Rightarrow>
          (case repeat_Get n d1 s1 of (rs, d2, s2) \<Rightarrow> (res # rs, d2, s2)))"

text \<open>
  A caller's calls of \<^verbatim>\<open>Next\<close>, \<^verbatim>\<open>Get\<close> and \<^verbatim>\<open>Iterate\<close> in any order, with no
  \<^verbatim>\<open>Reset\<close> among them. The run returns when every \<^verbatim>\<open>Iterate\<close> in it does.
\<close>

datatype ('r, 'w) operation =
  Do_Next | Do_Get | Do_Iterate "'r \<Rightarrow> 'w \<Rightarrow> error option \<times> 'w"

fun run ::
  "('i, 'r, 'w) Cursor \<Rightarrow> ('i, 'r, 'w) env \<Rightarrow> ('r, 'w) operation list \<Rightarrow>
     (('i, 'r, 'w) Cursor \<times> ('i, 'r, 'w) env) option" where
  "run d s [] = Some (d, s)"
| "run d s (Do_Next # ops) = (let available = Next d in run d s ops)"
| "run d s (Do_Get # ops) = (case Get d s of (res, d1, s1) \<Rightarrow> run d1 s1 ops)"
| "run d s (Do_Iterate callback # ops) =
     (case Iterate d callback s of
        None \<Rightarrow> None
      | Some (err, d1, s1) \<Rightarrow> run d1 s1 ops)"

text \<open>The pages the callback has been called with, in the order of the calls.\<close>

fun callback_responses :: "('i, 'r) call list \<Rightarrow> 'r list" where
  "callback_responses [] = []"
| "callback_responses (Call_callback r # cs) = r # callback_responses cs"
| "callback_responses (Call_fetchNext i # cs) = callback_responses cs"
| "callback_responses (Call_hasNext r # cs) = callback_responses cs"
| "callback_responses (Call_getFirstRequest # cs) = callback_responses cs"

text \<open>
  What the caller's functions do on the way: from the request \<open>i\<close> in the world \<open>w\<close>,
  the next fetches succeed with the pages \<open>ps\<close>, \<^verbatim>\<open>hasNext\<close> reports a further page
  after each of them and the callback returns nil on each; the result is the request
  and the world after the last of them. \<open>None\<close> when the functions do anything else.
\<close>

fun pages_ahead ::
  "('i \<Rightarrow> 'w \<Rightarrow> ('r \<times> error option) \<times> 'w) \<Rightarrow> ('r \<Rightarrow> 'w \<Rightarrow> ('i \<times> bool) \<times> 'w) \<Rightarrow>
   ('r \<Rightarrow> 'w \<Rightarrow> error option \<times> 'w) \<Rightarrow> 'i \<Rightarrow> 'w \<Rightarrow> 'r list \<Rightarrow> ('i \<times> 'w) option" where
  "pages_ahead fetch has callback i w [] = Some (i, w)"
| "pages_ahead fetch has callback i w (p # ps) =
     (case fetch i w of
        ((r, Some e), w1) \<Rightarrow> None
      | ((r, None), w1) \<Rightarrow>
          (case has r w1 of
             ((i1, m), w2) \<Rightarrow>
               (case callback r w2 of
                  (Some e, w3) \<Rightarrow> None
                | (None, w3) \<Rightarrow>
                    (if r = p \<and> m then pages_ahead fetch has callback i1 w3 ps else None))))"

section \<open>The test of cancellation\<close>



section \<open>Two cursors on the way\<close>

text \<open>
  The cursor and the environment after three calls of \<^verbatim>\<open>Get\<close> on the short-page
  iterator over five records, and after one call of \<^verbatim>\<open>Get\<close> on the iterator whose
  server fails from the second request on.
\<close>

definition shortPage_exhausted ::
  "(int, int list, unit) Cursor \<times> (int, int list, unit) env" where
  "shortPage_exhausted = snd (repeat_Get 3 (shortPageIterator 5) (start ()))"

definition flaky_after_first ::
  "(int, int list, nat) Cursor \<times> (int, int list, nat) env" where
  "flaky_after_first = snd (Get (flakyIterator 5) (start 0))"

section \<open>One call of Get\<close>

lemma Get_fetched:
  assumes "next_flag d"
    and "fetchNext d (request d) (world s) = ((r, None), w1)"
    and "hasNext d r w1 = ((i, m), w2)"
  shows "Get d s =
    ((r, None), d\<lparr>response := r, request := i, next_flag := m\<rparr>,
     \<lparr>world = w2, calls = calls s @ [Call_fetchNext (request d), Call_hasNext r]\<rparr>)"
  using assms by (simp add: Get_def)

lemma Get_failed:
  assumes "next_flag d"
    and "fetchNext d (request d) (world s) = ((r, Some e), w1)"
  shows "Get d s =
    ((r, Some e), d\<lparr>response := r\<rparr>,
     \<lparr>world = w1, calls = calls s @ [Call_fetchNext (request d)]\<rparr>)"
  using assms by (simp add: Get_def)

lemma Get_stopped:
  assumes "\<not> next_flag d"
  shows "Get d s = ((response d, Some ErrStop), d, s)"
  using assms by (simp add: Get_def)

text \<open>
  The calls one \<^verbatim>\<open>Get\<close> adds: none on a cursor with \<^verbatim>\<open>next\<close> false, else the fetch with
  the current request first.
\<close>

lemma Get_calls:
  "\<exists>rest. calls (snd (snd (Get d s))) = calls s @ rest \<and>
     (next_flag d \<longrightarrow> (\<exists>tl. rest = Call_fetchNext (request d) # tl)) \<and>
     (\<not> next_flag d \<longrightarrow> rest = [])"
  by (cases "fetchNext d (request d) (world s)")
     (auto simp: Get_def Let_def split: prod.splits option.splits)

section \<open>The loop of Iterate\<close>

lemma callback_responses_append:
  "callback_responses (xs @ ys) = callback_responses xs @ callback_responses ys"
  by (induction xs rule: callback_responses.induct) simp_all

lemma Iterate_exhausted:
  assumes "\<not> next_flag d"
  shows "Iterate d callback s = Some (None, d, s)"
  using assms by (subst Iterate.simps) (simp add: Next_def)

lemma Iterate_fetch_failed:
  assumes "next_flag d"
    and "fetchNext d (request d) (world s) = ((r, Some e), w1)"
  shows "Iterate d callback s =
    Some (if errors_Is e ErrStop then None else Some e, d\<lparr>response := r\<rparr>,
          \<lparr>world = w1, calls = calls s @ [Call_fetchNext (request d)]\<rparr>)"
  using assms(1) by (subst Iterate.simps) (simp add: Next_def Get_failed [OF assms])

lemma Iterate_callback_failed:
  assumes "next_flag d"
    and "fetchNext d (request d) (world s) = ((r, None), w1)"
    and "hasNext d r w1 = ((i, m), w2)"
    and "callback r w2 = (Some e, w3)"
  shows "Iterate d callback s =
    Some (if errors_Is e ErrStop then None else Some e,
          d\<lparr>response := r, request := i, next_flag := m\<rparr>,
          \<lparr>world = w3,
           calls = calls s @ [Call_fetchNext (request d), Call_hasNext r, Call_callback r]\<rparr>)"
  using assms(1,4)
  by (subst Iterate.simps) (simp add: Next_def Get_fetched [OF assms(1-3)])

lemma Iterate_step:
  assumes "next_flag d"
    and "fetchNext d (request d) (world s) = ((r, None), w1)"
    and "hasNext d r w1 = ((i, m), w2)"
    and "callback r w2 = (None, w3)"
  shows "Iterate d callback s =
    Iterate (d\<lparr>response := r, request := i, next_flag := m\<rparr>) callback
          \<lparr>world = w3,
           calls = calls s @ [Call_fetchNext (request d), Call_hasNext r, Call_callback r]\<rparr>"
  using assms(1,4)
  by (subst Iterate.simps) (simp add: Next_def Get_fetched [OF assms(1-3)])

lemma pages_ahead_Cons:
  assumes "pages_ahead fetch has callback i w (p # ps) = Some (j, v)"
  obtains w1 i1 w2 w3 where "fetch i w = ((p, None), w1)" and "has p w1 = ((i1, True), w2)"
    and "callback p w2 = (None, w3)" and "pages_ahead fetch has callback i1 w3 ps = Some (j, v)"
  using assms by (auto split: prod.splits option.splits if_splits)

text \<open>
  While the pages \<open>ps\<close> come in, the loop goes round once for each of them: what is left of
  the run is the run from the cursor that holds the last of these pages.
\<close>

lemma Iterate_after_pages:
  assumes "next_flag d"
    and "pages_ahead (fetchNext d) (hasNext d) callback (request d) (world s) ps = Some (i, w)"
  shows "\<exists>s'. Iterate d callback s =
           Iterate (d\<lparr>response := last (response d # ps), request := i, next_flag := True\<rparr>)
             callback s' \<and>
         world s' = w \<and>
         callback_responses (calls s') = callback_responses (calls s) @ ps"
  using assms
proof (induction ps arbitrary: d s)
  case Nil
  then have same: "d\<lparr>response := last (response d # []), request := i, next_flag := True\<rparr> = d"
    by (cases d) simp
  from Nil have "world s = w" by simp
  then show ?case
    unfolding same by (intro exI [of _ s]) simp
next
  case (Cons p ps)
  from Cons.prems(2) obtain w1 i1 w2 w3 where
    f: "fetchNext d (request d) (world s) = ((p, None), w1)" and
    h: "hasNext d p w1 = ((i1, True), w2)" and
    c: "callback p w2 = (None, w3)" and
    rest: "pages_ahead (fetchNext d) (hasNext d) callback i1 w3 ps = Some (i, w)"
    by (rule pages_ahead_Cons)
  let ?d1 = "d\<lparr>response := p, request := i1, next_flag := True\<rparr>"
  let ?s1 = "\<lparr>world = w3,
             calls = calls s @ [Call_fetchNext (request d), Call_hasNext p, Call_callback p]\<rparr>"
  have step: "Iterate d callback s = Iterate ?d1 callback ?s1"
    using Cons.prems(1) f h c by (rule Iterate_step)
  have "next_flag ?d1" by simp
  moreover have "pages_ahead (fetchNext ?d1) (hasNext ?d1) callback (request ?d1) (world ?s1) ps
      = Some (i, w)"
    using rest by simp
  ultimately obtain s' where
    it: "Iterate ?d1 callback ?s1 =
           Iterate (?d1\<lparr>response := last (response ?d1 # ps), request := i, next_flag := True\<rparr>)
             callback s'" and
    wd: "world s' = w" and
    cb: "callback_responses (calls s') = callback_responses (calls ?s1) @ ps"
    using Cons.IH [of ?d1 ?s1] by blast
  have "?d1\<lparr>response := last (response ?d1 # ps), request := i, next_flag := True\<rparr>
      = d\<lparr>response := last (response d # p # ps), request := i, next_flag := True\<rparr>"
    by simp
  with step it wd cb show ?case
    by (auto simp: callback_responses_append)
qed

lemma Iterate_fetch_failed_after_pages:
  assumes "next_flag d"
    and "pages_ahead (fetchNext d) (hasNext d) callback (request d) (world s) ps = Some (i, w)"
    and "fetchNext d i w = ((r, Some e), w1)"
  shows "\<exists>s'. Iterate d callback s =
             Some (if errors_Is e ErrStop then None else Some e,
                   d\<lparr>response := r, request := i, next_flag := True\<rparr>, s') \<and>
           world s' = w1 \<and>
           callback_responses (calls s') = callback_responses (calls s) @ ps"
proof -
  let ?d1 = "d\<lparr>response := last (response d # ps), request := i, next_flag := True\<rparr>"
  from Iterate_after_pages [OF assms(1,2)] obtain s1 where
    it: "Iterate d callback s = Iterate ?d1 callback s1" and
    wd: "world s1 = w" and
    cb: "callback_responses (calls s1) = callback_responses (calls s) @ ps"
    by blast
  let ?d2 = "?d1\<lparr>response := r\<rparr>"
  let ?s2 = "\<lparr>world = w1, calls = calls s1 @ [Call_fetchNext (request ?d1)]\<rparr>"
  have "Iterate ?d1 callback s1 = Some (if errors_Is e ErrStop then None else Some e, ?d2, ?s2)"
    using assms(3) wd by (intro Iterate_fetch_failed) simp_all
  with it have "Iterate d callback s =
      Some (if errors_Is e ErrStop then None else Some e, ?d2, ?s2)"
    by simp
  moreover have "?d2 = d\<lparr>response := r, request := i, next_flag := True\<rparr>"
    by simp
  moreover have "callback_responses (calls ?s2) = callback_responses (calls s) @ ps"
    by (simp add: callback_responses_append cb)
  ultimately show ?thesis
    by (intro exI [of _ ?s2]) simp
qed

section \<open>The test iterators at work\<close>

lemma simple_page_1: "MockAPIHandler 5 0 2 = [1, 2]"
  by code_simp

lemma simple_page_2: "MockAPIHandler 5 2 2 = [3, 4]"
  by code_simp

lemma simple_page_3: "MockAPIHandler 5 4 2 = [5]"
  by code_simp

lemma simple_page_4: "MockAPIHandler 5 5 2 = []"
  by code_simp

lemmas simple_pages = simple_page_1 simple_page_2 simple_page_3 simple_page_4

lemma shortPage_exhausted_eq:
  "shortPage_exhausted =
     ((shortPageIterator 5)\<lparr>response := [5], request := 0, next_flag := False\<rparr>,
      \<lparr>world = (),
       calls = [Call_fetchNext 0, Call_hasNext [1, 2], Call_fetchNext 2, Call_hasNext [3, 4],
                Call_fetchNext 4, Call_hasNext [5]]\<rparr>)"
  unfolding shortPage_exhausted_def numeral_3_eq_3
  by (simp add: Get_def shortPageIterator_def New_def start_def simple_pages)

lemma flaky_after_first_eq:
  "flaky_after_first =
     ((flakyIterator 5)\<lparr>response := [1, 2], request := 2, next_flag := True\<rparr>,
      \<lparr>world = 1, calls = [Call_fetchNext 0, Call_hasNext [1, 2]]\<rparr>)"
  by (simp add: flaky_after_first_def Get_def flakyIterator_def New_def start_def simple_pages)

lemma simple_fetch: "fetchNext (simpleIterator n) req w = ((MockAPIHandler n req 2, None), w)"
  by (simp add: simpleIterator_def New_def)

lemma simple_has:
  "hasNext (simpleIterator n) resp w =
     (if length resp > 0 then (last resp, True) else (0, False), w)"
  by (simp add: simpleIterator_def New_def)

lemma simple_fields:
  "request (simpleIterator n) = 0" "next_flag (simpleIterator n)"
  "response (simpleIterator n) = []"
  by (simp_all add: simpleIterator_def New_def)

lemmas simple_run = simple_fetch simple_has simple_fields simple_pages

lemma broken_fields:
  "request (brokenIterator err) = 0" "next_flag (brokenIterator err)"
  "response (brokenIterator err) = []"
  "fetchNext (brokenIterator err) req w = (([], Some err), w)"
  by (simp_all add: brokenIterator_def New_def)


section \<open>Claims about Get\<close>

text \<open>
  C1. When \<^verbatim>\<open>next\<close> is true and \<^verbatim>\<open>fetchNext(d.request)\<close> returns \<open>r\<close> with a nil error,
  \<^verbatim>\<open>Get\<close> stores \<open>r\<close> in \<^verbatim>\<open>response\<close>, sets \<^verbatim>\<open>request\<close> and \<^verbatim>\<open>next\<close> to the pair that
  \<^verbatim>\<open>hasNext(r)\<close> returns, and returns \<open>r\<close> with a nil error. It calls \<^verbatim>\<open>fetchNext\<close> once,
  then \<^verbatim>\<open>hasNext\<close> once, and nothing else.
\<close>

theorem Get_success_stores_and_advances:
  assumes "next_flag d"
    and "fetchNext d (request d) (world s) = ((r, None), w1)"
    and "hasNext d r w1 = ((i, m), w2)"
  shows "Get d s =
    ((r, None), d\<lparr>response := r, request := i, next_flag := m\<rparr>,
     \<lparr>world = w2, calls = calls s @ [Call_fetchNext (request d), Call_hasNext r]\<rparr>)"
  using assms by (simp add: Get_def)

text \<open>The first \<^verbatim>\<open>Get\<close> of the test iterator over five records returns the records 1 and 2.\<close>

theorem Get_success_stores_and_advances_witness:
  "next_flag (simpleIterator 5 :: (int, int list, unit) Cursor) \<and>
   fetchNext (simpleIterator 5)
     (request (simpleIterator 5 :: (int, int list, unit) Cursor)) (world (start () :: (int, int list, unit) env))
     = (([1, 2], None), ()) \<and>
   hasNext (simpleIterator 5) [1, 2] () = ((2, True), ()) \<and>
   Get (simpleIterator 5) (start ()) =
     (([1, 2], None),
      (simpleIterator 5)\<lparr>response := [1, 2], request := 2, next_flag := True\<rparr>,
      \<lparr>world = (), calls = [Call_fetchNext 0, Call_hasNext [1, 2]]\<rparr>)"
proof -
  let ?d = "simpleIterator 5 :: (int, int list, unit) Cursor"
  have a: "next_flag ?d"
    by (simp add: simpleIterator_def New_def)
  have b: "fetchNext ?d (request ?d) (world (start () :: (int, int list, unit) env)) = (([1, 2], None), ())"
    by (simp add: simpleIterator_def New_def simple_pages)
  have c: "hasNext ?d [1, 2] () = ((2, True), ())"
    by (simp add: simpleIterator_def New_def)
  from Get_success_stores_and_advances [OF a b c] a b c show ?thesis
    by (simp add: start_def simpleIterator_def New_def)
qed

text \<open>
  C2. When \<^verbatim>\<open>next\<close> is true and \<^verbatim>\<open>fetchNext(d.request)\<close> returns the error \<open>e\<close>, \<^verbatim>\<open>Get\<close>
  returns \<open>e\<close> itself, \<^verbatim>\<open>next\<close> and \<^verbatim>\<open>request\<close> are what they were, and the next \<^verbatim>\<open>Get\<close>
  starts by calling \<^verbatim>\<open>fetchNext\<close> with the same request.
\<close>

theorem Get_failure_keeps_request:
  assumes "next_flag d"
    and "fetchNext d (request d) (world s) = ((r, Some e), w1)"
  shows "Get d s = ((r, Some e), d\<lparr>response := r\<rparr>,
                   \<lparr>world = w1, calls = calls s @ [Call_fetchNext (request d)]\<rparr>) \<and>
    next_flag (fst (snd (Get d s))) = next_flag d \<and>
    request (fst (snd (Get d s))) = request d \<and>
    (\<exists>rest. calls (snd (snd (Get (fst (snd (Get d s))) (snd (snd (Get d s)))))) =
       calls (snd (snd (Get d s))) @ Call_fetchNext (request d) # rest)"
proof -
  let ?d1 = "d\<lparr>response := r\<rparr>"
  let ?s1 = "\<lparr>world = w1, calls = calls s @ [Call_fetchNext (request d)]\<rparr>"
  have g: "Get d s = ((r, Some e), ?d1, ?s1)"
    using assms by (rule Get_failed)
  from assms(1) have "next_flag ?d1" by simp
  with Get_calls [of ?d1 ?s1]
  have "\<exists>rest. calls (snd (snd (Get ?d1 ?s1))) = calls ?s1 @ Call_fetchNext (request d) # rest"
    by auto
  with g show ?thesis by simp
qed

text \<open>
  The second \<^verbatim>\<open>Get\<close> against the server that fails from its second request on: the
  request stays 2.
\<close>

theorem Get_failure_keeps_request_witness:
  "next_flag (fst flaky_after_first) \<and>
   fetchNext (fst flaky_after_first) (request (fst flaky_after_first))
     (world (snd flaky_after_first))
     = (([], Some (errors_New ''unexpected status code: 500'')), 2) \<and>
   fst (Get (fst flaky_after_first) (snd flaky_after_first))
     = ([], Some (errors_New ''unexpected status code: 500'')) \<and>
   next_flag (fst (snd (Get (fst flaky_after_first) (snd flaky_after_first)))) \<and>
   request (fst (snd (Get (fst flaky_after_first) (snd flaky_after_first)))) = 2"
proof -
  let ?d = "fst flaky_after_first"
  let ?s = "snd flaky_after_first"
  have a: "next_flag ?d"
    by (simp add: flaky_after_first_eq)
  have b: "fetchNext ?d (request ?d) (world ?s)
      = (([], Some (errors_New ''unexpected status code: 500'')), 2)"
    by (simp add: flaky_after_first_eq flakyIterator_def New_def)
  have c: "request ?d = 2"
    by (simp add: flaky_after_first_eq)
  from Get_failure_keeps_request [OF a b] a b c show ?thesis
    by simp
qed

text \<open>
  C3, as the code has it. On a cursor with \<^verbatim>\<open>next\<close> false every call of \<^verbatim>\<open>Get\<close>
  returns \<^verbatim>\<open>ErrStop\<close> together with the stored \<^verbatim>\<open>response\<close>, which is the last page
  fetched; it calls none of the caller's functions and changes neither the cursor nor the
  world.
\<close>

theorem Get_after_exhaustion:
  assumes "\<not> next_flag d"
  shows "repeat_Get n d s = (replicate n (response d, Some ErrStop), d, s)"
  using assms by (induction n) (simp_all add: Get_stopped)

theorem Get_after_exhaustion_witness:
  "\<not> next_flag (fst shortPage_exhausted) \<and>
   repeat_Get 2 (fst shortPage_exhausted) (snd shortPage_exhausted) =
     ([([5], Some ErrStop), ([5], Some ErrStop)], fst shortPage_exhausted,
      snd shortPage_exhausted)"
proof -
  have a: "\<not> next_flag (fst shortPage_exhausted)"
    by (simp add: shortPage_exhausted_eq)
  have "replicate 2 (response (fst shortPage_exhausted), Some ErrStop)
      = [([5], Some ErrStop), ([5], Some ErrStop)]"
    by (simp add: shortPage_exhausted_eq numeral_2_eq_2)
  with Get_after_exhaustion [OF a, of 2 "snd shortPage_exhausted"] a show ?thesis
    by simp
qed

text \<open>
  C3 as stated asks for the zero value of the result type. The short-page iterator over
  five records is exhausted after its third page, the record 5; \<^verbatim>\<open>Get\<close> then returns
  that page, and the zero value, the \<^verbatim>\<open>response\<close> of the new cursor, is the nil slice.
\<close>

theorem Get_after_exhaustion_not_zero:
  "\<not> next_flag (fst shortPage_exhausted) \<and>
   Get (fst shortPage_exhausted) (snd shortPage_exhausted) =
     (([5], Some ErrStop), fst shortPage_exhausted, snd shortPage_exhausted) \<and>
   response (shortPageIterator 5 :: (int, int list, unit) Cursor) = [] \<and>
   fst (fst (Get (fst shortPage_exhausted) (snd shortPage_exhausted))) \<noteq> []"
  by (simp add: shortPage_exhausted_eq Get_def shortPageIterator_def New_def)

text \<open>
  C4, as the code has it. \<^verbatim>\<open>Get\<close> assigns \<^verbatim>\<open>response\<close> from every fetch it makes: when
  \<^verbatim>\<open>fetchNext\<close> returns \<open>r\<close> together with an error, the stored \<^verbatim>\<open>response\<close> becomes \<open>r\<close>,
  and \<open>r\<close> is what \<^verbatim>\<open>Get\<close> returns beside the error.
\<close>

theorem Get_failure_stores_returned_response:
  assumes "next_flag d"
    and "fetchNext d (request d) (world s) = ((r, Some e), w1)"
  shows "response (fst (snd (Get d s))) = r \<and> fst (Get d s) = (r, Some e)"
  by (simp add: Get_failed [OF assms])

theorem Get_failure_stores_returned_response_witness:
  "next_flag (brokenIterator (errors_New ''nope'') :: (int, int list, unit) Cursor) \<and>
   fetchNext (brokenIterator (errors_New ''nope''))
     (request (brokenIterator (errors_New ''nope'') :: (int, int list, unit) Cursor))
     (world (start () :: (int, int list, unit) env))
     = (([], Some (errors_New ''nope'')), ()) \<and>
   response (fst (snd (Get (brokenIterator (errors_New ''nope'')) (start ())))) = [] \<and>
   fst (Get (brokenIterator (errors_New ''nope'')) (start ())) = ([], Some (errors_New ''nope''))"
proof -
  let ?d = "brokenIterator (errors_New ''nope'') :: (int, int list, unit) Cursor"
  have a: "next_flag ?d"
    by (simp add: brokenIterator_def New_def)
  have b: "fetchNext ?d (request ?d) (world (start () :: (int, int list, unit) env)) = (([], Some (errors_New ''nope'')), ())"
    by (simp add: brokenIterator_def New_def)
  from Get_failure_stores_returned_response [OF a b] a b show ?thesis
    by simp
qed

text \<open>
  C4 as stated has the stored page untouched by a failed fetch. After the first \<^verbatim>\<open>Get\<close>
  against the server that fails from its second request on, \<^verbatim>\<open>response\<close> holds the
  records 1 and 2; the second \<^verbatim>\<open>Get\<close> returns the server's error and \<^verbatim>\<open>response\<close> is
  the nil slice that came with it.
\<close>

theorem Get_failure_overwrites_response:
  "response (fst flaky_after_first) = [1, 2] \<and>
   snd (fst (Get (fst flaky_after_first) (snd flaky_after_first)))
     = Some (errors_New ''unexpected status code: 500'') \<and>
   response (fst (snd (Get (fst flaky_after_first) (snd flaky_after_first)))) = [] \<and>
   response (fst (snd (Get (fst flaky_after_first) (snd flaky_after_first))))
     \<noteq> response (fst flaky_after_first)"
  by (simp add: flaky_after_first_eq Get_def flakyIterator_def New_def)

section \<open>Claims about Iterate\<close>

text \<open>
  C5. Let the loop start on a cursor with \<^verbatim>\<open>next\<close> true, let the fetches succeed with
  the \<open>N\<close> pages \<open>ps\<close>, each followed by a further page, and then with a page \<open>p\<close> after
  which \<^verbatim>\<open>hasNext\<close> reports no further page, the callback returning nil on all of them.
  Then \<^verbatim>\<open>Iterate\<close> returns, with a nil error; it has called the callback once for each
  page, the last page \<open>p\<close> included and last, which is \<open>N + 1\<close> calls: the loop
  ends only after \<open>p\<close> has been handed over.
\<close>

theorem Iterate_delivers_every_page:
  assumes "next_flag d"
    and "pages_ahead (fetchNext d) (hasNext d) callback (request d) (world s) ps = Some (i, w)"
    and "fetchNext d i w = ((p, None), w1)"
    and "hasNext d p w1 = ((i1, False), w2)"
    and "callback p w2 = (None, w3)"
  shows "\<exists>s'. Iterate d callback s =
             Some (None, d\<lparr>response := p, request := i1, next_flag := False\<rparr>, s') \<and>
           world s' = w3 \<and>
           callback_responses (calls s') = callback_responses (calls s) @ ps @ [p] \<and>
           length (callback_responses (calls s')) =
             length (callback_responses (calls s)) + (length ps + 1)"
proof -
  let ?d1 = "d\<lparr>response := last (response d # ps), request := i, next_flag := True\<rparr>"
  from Iterate_after_pages [OF assms(1,2)] obtain s1 where
    it: "Iterate d callback s = Iterate ?d1 callback s1" and
    wd: "world s1 = w" and
    cb: "callback_responses (calls s1) = callback_responses (calls s) @ ps"
    by blast
  let ?d2 = "?d1\<lparr>response := p, request := i1, next_flag := False\<rparr>"
  let ?s2 = "\<lparr>world = w3,
             calls = calls s1 @ [Call_fetchNext (request ?d1), Call_hasNext p, Call_callback p]\<rparr>"
  have "Iterate ?d1 callback s1 = Iterate ?d2 callback ?s2"
    using assms(3-5) wd by (intro Iterate_step) simp_all
  also have "\<dots> = Some (None, ?d2, ?s2)"
    by (rule Iterate_exhausted) simp
  finally have "Iterate d callback s = Some (None, ?d2, ?s2)"
    using it by simp
  moreover have "?d2 = d\<lparr>response := p, request := i1, next_flag := False\<rparr>"
    by simp
  moreover have "callback_responses (calls ?s2) = callback_responses (calls s) @ ps @ [p]"
    by (simp add: callback_responses_append cb)
  ultimately show ?thesis
    by (intro exI [of _ ?s2]) simp
qed

text \<open>
  The full iteration of the tests: five records in pages of two are the pages
  \<open>[1, 2]\<close>, \<open>[3, 4]\<close>, \<open>[5]\<close> and the empty page, and the callback sees all four.
\<close>

theorem Iterate_delivers_every_page_witness:
  "next_flag (simpleIterator 5 :: (int, int list, nat) Cursor) \<and>
   pages_ahead (fetchNext (simpleIterator 5)) (hasNext (simpleIterator 5)) (test_callback [])
     (request (simpleIterator 5 :: (int, int list, nat) Cursor)) (world (start 0 :: (int, int list, nat) env))
     [[1, 2], [3, 4], [5]] = Some (5, 3) \<and>
   fetchNext (simpleIterator 5 :: (int, int list, nat) Cursor) 5 3 = (([], None), 3) \<and>
   hasNext (simpleIterator 5 :: (int, int list, nat) Cursor) [] 3 = ((0, False), 3) \<and>
   test_callback [] ([] :: int list) 3 = (None, 4) \<and>
   (\<exists>s'. Iterate (simpleIterator 5) (test_callback []) (start 0) =
           Some (None, (simpleIterator 5)\<lparr>response := [], request := 0, next_flag := False\<rparr>,
                 s') \<and>
         world s' = 4 \<and>
         callback_responses (calls s') = [[1, 2], [3, 4], [5], []])"
proof -
  let ?d = "simpleIterator 5 :: (int, int list, nat) Cursor"
  let ?cb = "test_callback [] :: int list \<Rightarrow> nat \<Rightarrow> error option \<times> nat"
  have a: "next_flag ?d"
    by (simp add: simple_run)
  have b: "pages_ahead (fetchNext ?d) (hasNext ?d) ?cb (request ?d) (world (start 0 :: (int, int list, nat) env))
      [[1, 2], [3, 4], [5]] = Some (5, 3)"
    by (simp add: simple_run start_def test_callback_def)
  have c: "fetchNext ?d 5 3 = (([], None), 3)"
    by (simp add: simple_run)
  have e: "hasNext ?d [] 3 = ((0, False), 3)"
    by (simp add: simple_run)
  have f: "?cb [] 3 = (None, 4)"
    by (simp add: test_callback_def)
  have "\<exists>s'. Iterate ?d ?cb (start 0) =
           Some (None, ?d\<lparr>response := [], request := 0, next_flag := False\<rparr>, s') \<and>
         world s' = 4 \<and>
         callback_responses (calls s') = [[1, 2], [3, 4], [5], []]"
    using Iterate_delivers_every_page [where d = ?d and callback = ?cb
        and s = "start 0" and ps = "[[1, 2], [3, 4], [5]]" and i = 5 and w = 3 and p = "[]"
        and ?w1.0 = 3 and ?i1.0 = 0 and ?w2.0 = 3 and ?w3.0 = 4, OF a b c e f]
    by (simp add: start_def) blast
  then show ?thesis
    by (intro conjI [OF a] conjI [OF b] conjI [OF c] conjI [OF e] conjI [OF f])
qed

text \<open>
  C6, as the code has it. Let the loop start on a cursor with \<^verbatim>\<open>next\<close> true, let the
  callback return nil on the pages \<open>ps\<close> and the error \<open>e\<close> on the page \<open>p\<close> after
  them, all fetches succeeding so far. Then \<^verbatim>\<open>Iterate\<close> returns after these
  \<open>K = length ps + 1\<close> calls of the callback; it returns nil when
  \<^verbatim>\<open>errors.Is(e, ErrStop)\<close> holds, which it does for \<^verbatim>\<open>ErrStop\<close> and for every error
  that wraps it, and \<open>e\<close> itself otherwise.
\<close>

theorem Iterate_stops_at_callback_error:
  assumes "next_flag d"
    and "pages_ahead (fetchNext d) (hasNext d) callback (request d) (world s) ps = Some (i, w)"
    and "fetchNext d i w = ((p, None), w1)"
    and "hasNext d p w1 = ((i1, m), w2)"
    and "callback p w2 = (Some e, w3)"
  shows "\<exists>s'. Iterate d callback s =
             Some (if errors_Is e ErrStop then None else Some e,
                   d\<lparr>response := p, request := i1, next_flag := m\<rparr>, s') \<and>
           world s' = w3 \<and>
           callback_responses (calls s') = callback_responses (calls s) @ ps @ [p] \<and>
           length (callback_responses (calls s')) =
             length (callback_responses (calls s)) + (length ps + 1)"
proof -
  let ?d1 = "d\<lparr>response := last (response d # ps), request := i, next_flag := True\<rparr>"
  from Iterate_after_pages [OF assms(1,2)] obtain s1 where
    it: "Iterate d callback s = Iterate ?d1 callback s1" and
    wd: "world s1 = w" and
    cb: "callback_responses (calls s1) = callback_responses (calls s) @ ps"
    by blast
  let ?d2 = "?d1\<lparr>response := p, request := i1, next_flag := m\<rparr>"
  let ?s2 = "\<lparr>world = w3,
             calls = calls s1 @ [Call_fetchNext (request ?d1), Call_hasNext p, Call_callback p]\<rparr>"
  have "Iterate ?d1 callback s1 = Some (if errors_Is e ErrStop then None else Some e, ?d2, ?s2)"
    using assms(3-5) wd by (intro Iterate_callback_failed) simp_all
  with it have "Iterate d callback s =
      Some (if errors_Is e ErrStop then None else Some e, ?d2, ?s2)"
    by simp
  moreover have "?d2 = d\<lparr>response := p, request := i1, next_flag := m\<rparr>"
    by simp
  moreover have "callback_responses (calls ?s2) = callback_responses (calls s) @ ps @ [p]"
    by (simp add: callback_responses_append cb)
  ultimately show ?thesis
    by (intro exI [of _ ?s2]) simp
qed

text \<open>A callback that returns an error of its own on its second call.\<close>

theorem Iterate_stops_at_callback_error_witness:
  "next_flag (simpleIterator 5 :: (int, int list, nat) Cursor) \<and>
   pages_ahead (fetchNext (simpleIterator 5)) (hasNext (simpleIterator 5))
     (test_callback [None, Some (errors_New ''enough'')])
     (request (simpleIterator 5 :: (int, int list, nat) Cursor)) (world (start 0 :: (int, int list, nat) env))
     [[1, 2]] = Some (2, 1) \<and>
   fetchNext (simpleIterator 5 :: (int, int list, nat) Cursor) 2 1 = (([3, 4], None), 1) \<and>
   hasNext (simpleIterator 5 :: (int, int list, nat) Cursor) [3, 4] 1 = ((4, True), 1) \<and>
   test_callback [None, Some (errors_New ''enough'')] [3, 4 :: int] 1
     = (Some (errors_New ''enough''), 2) \<and>
   (\<exists>s'. Iterate (simpleIterator 5) (test_callback [None, Some (errors_New ''enough'')])
           (start 0) =
           Some (Some (errors_New ''enough''),
                 (simpleIterator 5)\<lparr>response := [3, 4], request := 4, next_flag := True\<rparr>,
                 s') \<and>
         world s' = 2 \<and>
         callback_responses (calls s') = [[1, 2], [3, 4]])"
proof -
  let ?d = "simpleIterator 5 :: (int, int list, nat) Cursor"
  let ?cb = "test_callback [None, Some (errors_New ''enough'')]
    :: int list \<Rightarrow> nat \<Rightarrow> error option \<times> nat"
  have a: "next_flag ?d"
    by (simp add: simple_run)
  have b: "pages_ahead (fetchNext ?d) (hasNext ?d) ?cb (request ?d) (world (start 0 :: (int, int list, nat) env))
      [[1, 2]] = Some (2, 1)"
    by (simp add: simple_run start_def test_callback_def)
  have c: "fetchNext ?d 2 1 = (([3, 4], None), 1)"
    by (simp add: simple_run)
  have e: "hasNext ?d [3, 4] 1 = ((4, True), 1)"
    by (simp add: simple_run)
  have f: "?cb [3, 4] 1 = (Some (errors_New ''enough''), 2)"
    by (simp add: test_callback_def)
  have "\<exists>s'. Iterate ?d ?cb (start 0) =
           Some (Some (errors_New ''enough''),
                 ?d\<lparr>response := [3, 4], request := 4, next_flag := True\<rparr>, s') \<and>
         world s' = 2 \<and>
         callback_responses (calls s') = [[1, 2], [3, 4]]"
    using Iterate_stops_at_callback_error [where d = ?d and callback = ?cb
        and s = "start 0" and ps = "[[1, 2]]" and i = 2 and w = 1 and p = "[3, 4]"
        and ?w1.0 = 1 and ?i1.0 = 4 and m = True and ?w2.0 = 1
        and e = "errors_New ''enough''" and ?w3.0 = 2, OF a b c e f]
    by (simp add: start_def) blast
  then show ?thesis
    by (intro conjI [OF a] conjI [OF b] conjI [OF c] conjI [OF e] conjI [OF f])
qed

text \<open>
  C6 as stated has \<^verbatim>\<open>Iterate\<close> return the callback's value whenever that value is not the
  sentinel. A callback that returns \<^verbatim>\<open>fmt.Errorf("page limit: %w", iter.ErrStop)\<close> on its
  first call returns a value that is not \<^verbatim>\<open>ErrStop\<close>, and \<^verbatim>\<open>Iterate\<close> returns nil.
\<close>

theorem Iterate_swallows_wrapped_stop_from_callback:
  "test_callback [Some (fmt_Errorf ''page limit'' ErrStop)] [1, 2 :: int] 0
     = (Some (fmt_Errorf ''page limit'' ErrStop), 1) \<and>
   fmt_Errorf ''page limit'' ErrStop \<noteq> ErrStop \<and>
   Iterate (simpleIterator 5) (test_callback [Some (fmt_Errorf ''page limit'' ErrStop)]) (start 0)
     = Some (None, (simpleIterator 5)\<lparr>response := [1, 2], request := 2, next_flag := True\<rparr>,
             \<lparr>world = 1,
              calls = [Call_fetchNext 0, Call_hasNext [1, 2], Call_callback [1, 2]]\<rparr>)"
proof -
  let ?d = "simpleIterator 5 :: (int, int list, nat) Cursor"
  let ?cb = "test_callback [Some (fmt_Errorf ''page limit'' ErrStop)]
    :: int list \<Rightarrow> nat \<Rightarrow> error option \<times> nat"
  have a: "next_flag ?d"
    by (simp add: simple_run)
  have c: "fetchNext ?d (request ?d) (world (start 0 :: (int, int list, nat) env)) = (([1, 2], None), 0)"
    by (simp add: simple_run start_def)
  have e: "hasNext ?d [1, 2] 0 = ((2, True), 0)"
    by (simp add: simple_run)
  have f: "?cb [1, 2] 0 = (Some (fmt_Errorf ''page limit'' ErrStop), 1)"
    by (simp add: test_callback_def)
  have "Iterate ?d ?cb (start 0) =
      Some (None, ?d\<lparr>response := [1, 2], request := 2, next_flag := True\<rparr>,
            \<lparr>world = 1,
             calls = [Call_fetchNext 0, Call_hasNext [1, 2], Call_callback [1, 2]]\<rparr>)"
    using Iterate_callback_failed [of ?d "start 0" "[1, 2]" 0 2 True 0 ?cb _ 1, OF a c e f]
    by (simp add: start_def simple_fields)
  with f show ?thesis
    by simp
qed

text \<open>
  C10. When a fetch of the loop returns an error \<open>e\<close> for which
  \<^verbatim>\<open>errors.Is(e, ErrStop)\<close> holds, on the first round or after any number of pages,
  \<^verbatim>\<open>Iterate\<close> returns, and it returns nil: the caller does not see \<open>e\<close>.
\<close>

theorem Iterate_swallows_stop_from_fetch:
  assumes "next_flag d"
    and "pages_ahead (fetchNext d) (hasNext d) callback (request d) (world s) ps = Some (i, w)"
    and "fetchNext d i w = ((r, Some e), w1)"
    and "errors_Is e ErrStop"
  shows "\<exists>s'. Iterate d callback s =
             Some (None, d\<lparr>response := r, request := i, next_flag := True\<rparr>, s') \<and>
           world s' = w1 \<and>
           callback_responses (calls s') = callback_responses (calls s) @ ps"
  using Iterate_fetch_failed_after_pages [OF assms(1-3)] assms(4) by simp

text \<open>
  A fetch that walks a cursor of its own and hands on the \<^verbatim>\<open>ErrStop\<close> of that cursor,
  wrapped.
\<close>

theorem Iterate_swallows_stop_from_fetch_witness:
  "next_flag (brokenIterator (fmt_Errorf ''inner cursor'' ErrStop)
     :: (int, int list, nat) Cursor) \<and>
   pages_ahead (fetchNext (brokenIterator (fmt_Errorf ''inner cursor'' ErrStop)))
     (hasNext (brokenIterator (fmt_Errorf ''inner cursor'' ErrStop))) (test_callback [])
     (request (brokenIterator (fmt_Errorf ''inner cursor'' ErrStop)
        :: (int, int list, nat) Cursor))
     (world (start 0 :: (int, int list, nat) env)) [] = Some (0, 0) \<and>
   fetchNext (brokenIterator (fmt_Errorf ''inner cursor'' ErrStop)
     :: (int, int list, nat) Cursor) 0 0
     = (([], Some (fmt_Errorf ''inner cursor'' ErrStop)), 0) \<and>
   errors_Is (fmt_Errorf ''inner cursor'' ErrStop) ErrStop \<and>
   (\<exists>s'. Iterate (brokenIterator (fmt_Errorf ''inner cursor'' ErrStop)) (test_callback [])
           (start 0) =
           Some (None,
                 (brokenIterator (fmt_Errorf ''inner cursor'' ErrStop))
                   \<lparr>response := [], request := 0, next_flag := True\<rparr>, s') \<and>
         world s' = (0::nat) \<and>
         callback_responses (calls s') = ([] :: int list list))"
proof -
  let ?e = "fmt_Errorf ''inner cursor'' ErrStop"
  let ?d = "brokenIterator ?e :: (int, int list, nat) Cursor"
  let ?cb = "test_callback [] :: int list \<Rightarrow> nat \<Rightarrow> error option \<times> nat"
  have a: "next_flag ?d"
    by (simp add: broken_fields)
  have b: "pages_ahead (fetchNext ?d) (hasNext ?d) ?cb (request ?d)
      (world (start 0 :: (int, int list, nat) env)) [] = Some (0, 0)"
    by (simp add: broken_fields start_def)
  have c: "fetchNext ?d 0 0 = (([], Some ?e), 0)"
    by (simp add: broken_fields)
  have e: "errors_Is ?e ErrStop"
    by simp
  have "\<exists>s'. Iterate ?d ?cb (start 0) =
           Some (None, ?d\<lparr>response := [], request := 0, next_flag := True\<rparr>, s') \<and>
         world s' = (0::nat) \<and>
         callback_responses (calls s') = ([] :: int list list)"
    using Iterate_swallows_stop_from_fetch [where d = ?d and callback = ?cb
        and s = "start 0" and ps = "[]" and i = 0 and w = 0 and r = "[]"
        and e = ?e and ?w1.0 = 0, OF a b c e]
    by (simp add: start_def)
  then show ?thesis
    by (intro conjI [OF a] conjI [OF b] conjI [OF c] conjI [OF e])
qed

section \<open>Claims about Reset and the flag\<close>

text \<open>
  C7. \<^verbatim>\<open>Reset\<close> sets \<^verbatim>\<open>request\<close> to what \<^verbatim>\<open>getFirstRequest()\<close> returns and \<^verbatim>\<open>next\<close> to
  true; the one call it makes is that of \<^verbatim>\<open>getFirstRequest\<close>, so it does not fetch, and
  \<^verbatim>\<open>response\<close> is what it was. \<^verbatim>\<open>Next\<close> is true after every \<^verbatim>\<open>Reset\<close> and on every new
  cursor.
\<close>

theorem Reset_restarts:
  "Reset d s =
     (d\<lparr>request := fst (getFirstRequest d (world s)), next_flag := True\<rparr>,
      \<lparr>world = snd (getFirstRequest d (world s)), calls = calls s @ [Call_getFirstRequest]\<rparr>) \<and>
   response (fst (Reset d s)) = response d \<and>
   Next (fst (Reset d s)) \<and>
   Next (New zero_request zero_response config)"
  by (simp add: Reset_def Next_def New_def split: prod.splits)

text \<open>The exhausted short-page cursor starts again at request 0 and keeps its last page.\<close>

theorem Reset_restarts_witness:
  "\<not> Next (fst shortPage_exhausted) \<and>
   request (fst (Reset (fst shortPage_exhausted) (snd shortPage_exhausted))) = 0 \<and>
   response (fst (Reset (fst shortPage_exhausted) (snd shortPage_exhausted))) = [5] \<and>
   Next (fst (Reset (fst shortPage_exhausted) (snd shortPage_exhausted))) \<and>
   calls (snd (Reset (fst shortPage_exhausted) (snd shortPage_exhausted)))
     = calls (snd shortPage_exhausted) @ [Call_getFirstRequest]"
proof -
  let ?d = "fst shortPage_exhausted"
  let ?s = "snd shortPage_exhausted"
  have g: "getFirstRequest ?d (world ?s) = (0, ())"
    by (simp add: shortPage_exhausted_eq shortPageIterator_def New_def)
  have n: "\<not> Next ?d" and r: "response ?d = [5]"
    by (simp_all add: shortPage_exhausted_eq Next_def)
  have "Reset ?d ?s =
     (?d\<lparr>request := fst (getFirstRequest ?d (world ?s)), next_flag := True\<rparr>,
      \<lparr>world = snd (getFirstRequest ?d (world ?s)), calls = calls ?s @ [Call_getFirstRequest]\<rparr>)"
    by (rule Reset_restarts [THEN conjunct1])
  then have "Reset ?d ?s =
     (?d\<lparr>request := 0, next_flag := True\<rparr>,
      \<lparr>world = (), calls = calls ?s @ [Call_getFirstRequest]\<rparr>)"
    by (simp only: g fst_conv snd_conv)
  with n r show ?thesis
    by (simp add: Next_def)
qed

text \<open>
  C8. From a cursor with \<^verbatim>\<open>next\<close> false, any calls of \<^verbatim>\<open>Next\<close>, \<^verbatim>\<open>Get\<close> and
  \<^verbatim>\<open>Iterate\<close>, in any number and order, all return and leave the cursor and the
  environment as they were, so \<^verbatim>\<open>next\<close> is false after each of them; \<^verbatim>\<open>Reset\<close> sets it
  to true.
\<close>

theorem exhausted_until_Reset:
  assumes "\<not> next_flag d"
  shows "run d s ops = Some (d, s) \<and> next_flag (fst (Reset d s))"
proof -
  have "run d s ops = Some (d, s)"
  proof (induction ops)
    case Nil
    show ?case by simp
  next
    case (Cons op ops)
    with assms show ?case
      by (cases op) (simp_all add: Get_stopped Iterate_exhausted)
  qed
  then show ?thesis
    by (simp add: Reset_def split: prod.splits)
qed

theorem exhausted_until_Reset_witness:
  "\<not> next_flag (fst shortPage_exhausted) \<and>
   run (fst shortPage_exhausted) (snd shortPage_exhausted)
     [Do_Get, Do_Next, Do_Iterate (\<lambda>resp w. (None, w)), Do_Get]
     = Some shortPage_exhausted \<and>
   next_flag (fst (Reset (fst shortPage_exhausted) (snd shortPage_exhausted)))"
proof -
  have a: "\<not> next_flag (fst shortPage_exhausted)"
    by (simp add: shortPage_exhausted_eq)
  from exhausted_until_Reset [OF a, of "snd shortPage_exhausted"
      "[Do_Get, Do_Next, Do_Iterate (\<lambda>resp w. (None, w)), Do_Get]"] a
  show ?thesis by simp
qed

section \<open>The claim about cancellation\<close>


end
